theory Spec2Isabelle
  imports Complex_Main "HOL-Library.List_Lexorder" "HOL-Library.Char_ord"
    "HOL-Library.Log_Nat"
begin

section \<open>Errors raised by the application and by the library calls it makes\<close>

text \<open>
  The \<open>ValueError\<close>s that can arise, by what their message reports.  The message of
  \<open>parse_donors_csv\<close> prints a Python set, whose order of elements is not fixed, so
  the set itself is kept.
\<close>

datatype value_error =
    NoSamples
  | MissingParseDatesColumn string
  | MissingColumns "string set"
  | InvalidLiteralForInt string
  | CannotConvertNonFinite
  | OnlyOneClassPresent
  | MulticlassNotSupported

datatype py_error =
    OverflowError
  | IndexError
  | KeyError string
  | AttributeError
  | TypeError
  | EmptyDataError
  | DivisionByZero
  | ValueError value_error

section \<open>Float64 arithmetic\<close>

text \<open>
  numpy and scikit-learn compute in IEEE 754 binary64 with rounding to nearest, ties
  to even.  A float is modelled by the rational it denotes, and every arithmetic
  operation of the source by the exact operation followed by \<open>float64\<close>, which
  rounds to 53 significant bits: for \<open>2^e \<le> |x| < 2^(e+1)\<close> the result is the
  multiple of \<open>2^(e-52)\<close> nearest to \<open>x\<close>.  The exponent is not bounded: overflow
  to infinity and subnormal numbers are outside the model (they do not arise from
  64-bit integer data scaled by a factor between \<open>2^-64\<close> and 1).
\<close>

definition rne :: "rat \<Rightarrow> int" where
  "rne r =
     (let f = \<lfloor>r\<rfloor>; d = r - of_int f
      in if d < 1 / 2 then f else if 1 / 2 < d then f + 1 else if even f then f else f + 1)"

definition float_exponent :: "rat \<Rightarrow> int" where
  "float_exponent x =
     (let (a, b) = quotient_of x; d = bitlen a - bitlen b
      in if power_int 2 d \<le> x then d else d - 1)"

definition float64 :: "rat \<Rightarrow> rat" where
  "float64 x =
     (if x = 0 then 0
      else
        (let q = power_int 2 (float_exponent \<bar>x\<bar> - 52)
         in sgn x * of_int (rne (\<bar>x\<bar> / q)) * q))"

text \<open>An integer converted to float64, as \<open>check_array\<close> converts the frame.\<close>

definition to_float64 :: "int \<Rightarrow> rat" where
  "to_float64 n = float64 (of_int n)"

section \<open>Eligibility calculator (\<open>compute_eligibility\<close>)\<close>

text \<open>
  A \<open>datetime.date\<close> is modelled by its proleptic Gregorian ordinal
  (\<open>date.toordinal()\<close>): \<open>date.min\<close> is day 1 and \<open>date.max\<close>
  (9999-12-31) is day 3652059.  Adding a \<open>timedelta\<close> whose result leaves that
  range raises \<open>OverflowError\<close>.  \<open>date.today()\<close> is read from the clock, so
  it is a parameter of the model.
\<close>

definition date_min :: int where
  "date_min = 1"

definition date_max :: int where
  "date_max = 3652059"

definition is_date :: "int \<Rightarrow> bool" where
  "is_date d = (date_min \<le> d \<and> d \<le> date_max)"

definition timedelta :: "int \<Rightarrow> py_error + int" where
  "timedelta days =
     (if - 999999999 \<le> days \<and> days \<le> 999999999 then Inr days else Inl OverflowError)"

definition date_add :: "int \<Rightarrow> int \<Rightarrow> py_error + int" where
  "date_add d td = (if is_date (d + td) then Inr (d + td) else Inl OverflowError)"

definition compute_eligibility :: "int \<Rightarrow> int \<Rightarrow> int \<Rightarrow> py_error + (bool \<times> int \<times> int)" where
  "compute_eligibility today last_donation cooldown_days =
     (case timedelta cooldown_days of
        Inl e \<Rightarrow> Inl e
      | Inr td \<Rightarrow>
          (case date_add last_donation td of
             Inl e \<Rightarrow> Inl e
           | Inr next_eligible \<Rightarrow>
               (let eligible = (today \<ge> next_eligible);
                    days_left = (if eligible then 0 else next_eligible - today)
                in Inr (eligible, next_eligible, days_left))))"

section \<open>Feature normalizer (\<open>MinMaxScaler\<close> as \<open>train_model\<close> and the prediction tab use it)\<close>

text \<open>
  A row of the feature frame \<open>df[['Recency', 'Frequency', 'Monetary', 'Time']]\<close>.
  Raw features are integers (the dataset's columns and the four \<open>number_input\<close>
  widgets, which are created with integer bounds and steps); scaled features are
  rationals.  The scaler is given twice: first in exact arithmetic, which is
  enough where rounding cannot change the outcome, then as the machine computes it,
  in float64.
\<close>

record 'a features =
  Recency :: 'a
  Frequency :: 'a
  Monetary :: 'a
  Time :: 'a

text \<open>
  \<open>MinMaxScaler()\<close> is a library class, constructed with its defaults
  \<open>feature_range = (0, 1)\<close> and \<open>clip = False\<close>.  Per feature, \<open>fit\<close> stores
  the minimum, the maximum, \<open>scale = (1 - 0) / handle_zeros(max - min)\<close> and
  \<open>offset = 0 - min * scale\<close>, where a zero range is replaced by 1 before the
  division; \<open>transform\<close> computes \<open>x * scale + offset\<close> and does not clip.  The
  library's test for a zero range is \<open>range < 10 * eps\<close>, which for integer data is
  \<open>range = 0\<close>.  Fitting on a frame with no rows is rejected with a \<open>ValueError\<close>.
\<close>

record feature_stats =
  data_min :: int
  data_max :: int
  scale :: rat
  offset :: rat

definition handle_zeros_in_scale :: "int \<Rightarrow> int" where
  "handle_zeros_in_scale r = (if r = 0 then 1 else r)"

definition checked_div :: "rat \<Rightarrow> rat \<Rightarrow> py_error + rat" where
  "checked_div a b = (if b = 0 then Inl DivisionByZero else Inr (a / b))"

definition fit_feature :: "int list \<Rightarrow> py_error + feature_stats" where
  "fit_feature xs =
     (if xs = [] then Inl (ValueError NoSamples)
      else
        (let lo = Min (set xs); hi = Max (set xs)
         in case checked_div (1 - 0) (of_int (handle_zeros_in_scale (hi - lo))) of
              Inl e \<Rightarrow> Inl e
            | Inr s \<Rightarrow>
                Inr \<lparr>data_min = lo, data_max = hi, scale = s, offset = 0 - of_int lo * s\<rparr>))"

definition transform_feature :: "feature_stats \<Rightarrow> int \<Rightarrow> rat" where
  "transform_feature st x = of_int x * scale st + offset st"

definition MinMaxScaler_fit :: "int features list \<Rightarrow> py_error + feature_stats features" where
  "MinMaxScaler_fit X =
     (case fit_feature (map Recency X) of Inl e \<Rightarrow> Inl e | Inr r \<Rightarrow>
      case fit_feature (map Frequency X) of Inl e \<Rightarrow> Inl e | Inr f \<Rightarrow>
      case fit_feature (map Monetary X) of Inl e \<Rightarrow> Inl e | Inr m \<Rightarrow>
      case fit_feature (map Time X) of Inl e \<Rightarrow> Inl e | Inr t \<Rightarrow>
        Inr \<lparr>Recency = r, Frequency = f, Monetary = m, Time = t\<rparr>)"

definition MinMaxScaler_transform :: "feature_stats features \<Rightarrow> int features \<Rightarrow> rat features" where
  "MinMaxScaler_transform scaler x =
     \<lparr>Recency = transform_feature (Recency scaler) (Recency x),
      Frequency = transform_feature (Frequency scaler) (Frequency x),
      Monetary = transform_feature (Monetary scaler) (Monetary x),
      Time = transform_feature (Time scaler) (Time x)\<rparr>"


text \<open>The input and the fitted bounds, feature by feature.\<close>

definition within_fitted_range :: "feature_stats features \<Rightarrow> int features \<Rightarrow> bool" where
  "within_fitted_range scaler x =
     (data_min (Recency scaler) \<le> Recency x \<and> Recency x \<le> data_max (Recency scaler) \<and>
      data_min (Frequency scaler) \<le> Frequency x \<and> Frequency x \<le> data_max (Frequency scaler) \<and>
      data_min (Monetary scaler) \<le> Monetary x \<and> Monetary x \<le> data_max (Monetary scaler) \<and>
      data_min (Time scaler) \<le> Time x \<and> Time x \<le> data_max (Time scaler))"

definition in_unit_interval :: "rat features \<Rightarrow> bool" where
  "in_unit_interval v =
     (0 \<le> Recency v \<and> Recency v \<le> 1 \<and> 0 \<le> Frequency v \<and> Frequency v \<le> 1 \<and>
      0 \<le> Monetary v \<and> Monetary v \<le> 1 \<and> 0 \<le> Time v \<and> Time v \<le> 1)"

text \<open>
  The same scaler as the machine computes it.  \<open>fit\<close> converts the frame to
  float64 and stores, per feature, \<open>data_min\<close>, \<open>data_max\<close>,
  \<open>scale = 1 / handle_zeros(data_max - data_min)\<close> and
  \<open>min = 0 - data_min * scale\<close>, each operation rounded; a range below
  \<open>10 * eps\<close> counts as zero and is replaced by 1.  \<open>transform\<close> converts its
  input to float64 and computes \<open>X *= scale; X += min\<close>, two rounded operations.
\<close>

record float_stats =
  min64 :: rat
  max64 :: rat
  scale64 :: rat
  offset64 :: rat

definition eps64 :: rat where
  "eps64 = 1 / 2 ^ 52"

definition handle_zeros_in_scale64 :: "rat \<Rightarrow> rat" where
  "handle_zeros_in_scale64 r = (if r < 10 * eps64 then 1 else r)"

definition fit_feature64 :: "int list \<Rightarrow> py_error + float_stats" where
  "fit_feature64 xs =
     (if xs = [] then Inl (ValueError NoSamples)
      else
        (let lo = Min (set (map to_float64 xs)); hi = Max (set (map to_float64 xs));
             data_range = float64 (hi - lo)
         in case checked_div (1 - 0) (handle_zeros_in_scale64 data_range) of
              Inl e \<Rightarrow> Inl e
            | Inr ratio \<Rightarrow>
                (let s = float64 ratio
                 in Inr \<lparr>min64 = lo, max64 = hi, scale64 = s,
                         offset64 = float64 (0 - float64 (lo * s))\<rparr>)))"








section \<open>Data frames\<close>

text \<open>
  A pandas column by its dtype: \<open>int64\<close> (values in the signed 64-bit range),
  \<open>float64\<close> (\<open>None\<close> is NaN), \<open>bool\<close>, \<open>object\<close> holding strings (\<open>None\<close>
  is a missing value), \<open>datetime64\<close> (\<open>None\<close> is NaT; the day is kept as a date
  ordinal) and an \<open>object\<close> column of \<open>datetime.date\<close> values as \<open>.dt.date\<close>
  produces it.  A frame is the list of its named columns, in order.
\<close>

datatype column =
    Int64 "int list"
  | Float64 "rat option list"
  | Boolean "bool list"
  | Object "string option list"
  | Datetime64 "int option list"
  | DateObject "int option list"

type_synonym frame = "(string \<times> column) list"

definition columns :: "frame \<Rightarrow> string list" where
  "columns df = map fst df"

fun column_len :: "column \<Rightarrow> nat" where
  "column_len (Int64 xs) = length xs"
| "column_len (Float64 xs) = length xs"
| "column_len (Boolean xs) = length xs"
| "column_len (Object xs) = length xs"
| "column_len (Datetime64 xs) = length xs"
| "column_len (DateObject xs) = length xs"

text \<open>\<open>len(df)\<close>: the number of rows.\<close>

definition len_frame :: "frame \<Rightarrow> nat" where
  "len_frame df = (case df of [] \<Rightarrow> 0 | (_, c) # _ \<Rightarrow> column_len c)"

text \<open>\<open>df[name] = col\<close>: replaces the column of that name, or appends a new one.\<close>

fun setitem :: "frame \<Rightarrow> string \<Rightarrow> column \<Rightarrow> frame" where
  "setitem [] name col = [(name, col)]"
| "setitem ((k, c) # df) name col =
     (if k = name then (k, col) # df else (k, c) # setitem df name col)"

text \<open>Signed 64-bit wrap-around, as numpy's \<open>int64\<close> arithmetic has it.\<close>

definition wrap64 :: "int \<Rightarrow> int" where
  "wrap64 x = (x + 2 ^ 63) mod 2 ^ 64 - 2 ^ 63"

text \<open>
  \<open>series * k\<close> for a Python integer \<open>k\<close>: wrap-around arithmetic on integers
  (a boolean counting as 0 or 1), the rounded product on floats, repetition on
  strings, not supported on dates.
\<close>

fun column_mul :: "column \<Rightarrow> int \<Rightarrow> py_error + column" where
  "column_mul (Int64 xs) k = Inr (Int64 (map (\<lambda>x. wrap64 (x * k)) xs))"
| "column_mul (Float64 xs) k =
     Inr (Float64 (map (map_option (\<lambda>x. float64 (x * to_float64 k))) xs))"
| "column_mul (Boolean xs) k = Inr (Int64 (map (\<lambda>b. wrap64 ((if b then 1 else 0) * k)) xs))"
| "column_mul (Object xs) k =
     Inr (Object (map (map_option (\<lambda>s. concat (replicate (nat k) s))) xs))"
| "column_mul (Datetime64 xs) k = Inl TypeError"
| "column_mul (DateObject xs) k = Inl TypeError"

text \<open>\<open>series.dt.date\<close>: only a datetime column has the \<open>.dt\<close> accessor.\<close>

fun dt_date :: "column \<Rightarrow> py_error + column" where
  "dt_date (Datetime64 xs) = Inr (DateObject xs)"
| "dt_date _ = Inl AttributeError"

section \<open>Donor roster (\<open>parse_donors_csv\<close>, \<open>gen_sample_donors\<close>, the sidebar)\<close>

text \<open>
  The uploaded file is given by the frame \<open>pd.read_csv\<close> builds from it, the column
  named in \<open>parse_dates\<close> being \<open>datetime64\<close> when pandas could parse all of its
  values and left as it was read otherwise.  \<open>read_csv\<close> raises \<open>EmptyDataError\<close>
  for a file with no columns and a \<open>ValueError\<close> when a \<open>parse_dates\<close> column is
  absent.
\<close>

definition read_csv :: "frame \<Rightarrow> string list \<Rightarrow> py_error + frame" where
  "read_csv file parse_dates =
     (if file = [] then Inl EmptyDataError
      else (case filter (\<lambda>c. c \<notin> set (columns file)) parse_dates of
              [] \<Rightarrow> Inr file
            | c # _ \<Rightarrow> Inl (ValueError (MissingParseDatesColumn c))))"

definition required :: "string set" where
  "required = {''name'', ''gender'', ''blood_group'', ''last_donation_date'', ''total_donations''}"

definition parse_donors_csv :: "frame \<Rightarrow> py_error + frame" where
  "parse_donors_csv file =
     (case read_csv file [''last_donation_date''] of
        Inl e \<Rightarrow> Inl e
      | Inr df \<Rightarrow>
          (case map_of df ''last_donation_date'' of
             None \<Rightarrow> Inl (KeyError ''last_donation_date'')
           | Some col \<Rightarrow>
               (case dt_date col of
                  Inl e \<Rightarrow> Inl e
                | Inr dates \<Rightarrow>
                    (let df = setitem df ''last_donation_date'' dates;
                         missing = required - set (columns df)
                     in if missing \<noteq> {} then Inl (ValueError (MissingColumns missing))
                        else if ''contribution_score'' \<notin> set (columns df) then
                          (case map_of df ''total_donations'' of
                             None \<Rightarrow> Inl (KeyError ''total_donations'')
                           | Some total_donations \<Rightarrow>
                               (case column_mul total_donations 10 of
                                  Inl e \<Rightarrow> Inl e
                                | Inr score \<Rightarrow> Inr (setitem df ''contribution_score'' score)))
                        else Inr df))))"

text \<open>Decimal rendering of \<open>i + 1\<close> with the format \<open>03d\<close>.\<close>

definition digit_char :: "nat \<Rightarrow> char" where
  "digit_char d = ''0123456789'' ! d"

function str_nat :: "nat \<Rightarrow> string" where
  "str_nat n = (if n < 10 then [digit_char n] else str_nat (n div 10) @ [digit_char (n mod 10)])"
  by pat_completeness auto
termination
  by (relation "measure (\<lambda>n. n)") auto

definition format_03d :: "nat \<Rightarrow> string" where
  "format_03d n = replicate (3 - length (str_nat n)) (CHR ''0'') @ str_nat n"

text \<open>
  The arrays numpy's global generator returns after \<open>np.random.seed(seed)\<close>, each
  of the requested size \<open>n\<close>, given by their elements.  The generator is a
  parameter \<open>np_random seed n\<close>; \<open>date.today()\<close> is the parameter \<open>today\<close>.
\<close>

record np_draws =
  genders_draw :: "nat \<Rightarrow> string"
  blood_groups_draw :: "nat \<Rightarrow> string"
  last_days_ago_draw :: "nat \<Rightarrow> int"
  total_units_draw :: "nat \<Rightarrow> int"

definition gen_sample_donors :: "(int \<Rightarrow> nat \<Rightarrow> np_draws) \<Rightarrow> int \<Rightarrow> nat \<Rightarrow> int \<Rightarrow> frame" where
  "gen_sample_donors np_random today n seed =
     (let draws = np_random seed n;
          names = map (\<lambda>i. ''Donor-'' @ format_03d (i + 1)) [0..<n];
          genders = map (genders_draw draws) [0..<n];
          blood_groups = map (blood_groups_draw draws) [0..<n];
          last_days_ago = map (last_days_ago_draw draws) [0..<n];
          last_dates = map (\<lambda>d. today - d) last_days_ago;
          total_units = map (total_units_draw draws) [0..<n];
          score = map (\<lambda>(u, d). wrap64 (wrap64 (u * 10) + wrap64 (365 - d)))
                    (zip total_units last_days_ago)
      in [(''name'', Object (map Some names)),
          (''gender'', Object (map Some genders)),
          (''blood_group'', Object (map Some blood_groups)),
          (''last_donation_date'', DateObject (map Some last_dates)),
          (''total_donations'', Int64 total_units),
          (''contribution_score'', Int64 score)])"

text \<open>
  The sidebar: what it shows about the upload, and the roster the rest of the page
  uses.  \<open>gen_sample_donors()\<close> is called with its defaults \<open>n = 200\<close> and
  \<open>seed = 42\<close>.
\<close>

datatype sidebar_message =
    Success string
  | Error string py_error

definition load_donors ::
  "(int \<Rightarrow> nat \<Rightarrow> np_draws) \<Rightarrow> int \<Rightarrow> frame option \<Rightarrow> sidebar_message option \<times> frame" where
  "load_donors np_random today uploaded_donors =
     (case uploaded_donors of
        Some file \<Rightarrow>
          (case parse_donors_csv file of
             Inr donors_df \<Rightarrow> (Some (Success ''Donor list uploaded.''), donors_df)
           | Inl e \<Rightarrow>
               (Some (Error ''Error reading donor CSV: '' e),
                gen_sample_donors np_random today 200 42))
      | None \<Rightarrow> (None, gen_sample_donors np_random today 200 42))"

text \<open>
  What \<open>read_csv\<close> can return: distinct column names, columns of one length, no
  column of \<open>date\<close> objects, and no datetime column but those it was asked to
  parse.
\<close>

fun is_datetime :: "column \<Rightarrow> bool" where
  "is_datetime (Datetime64 _) = True"
| "is_datetime _ = False"



section \<open>Training table (\<open>load_transfusion\<close>)\<close>

text \<open>\<open>df.rename(columns={k: v})\<close>: every column named \<open>k\<close> is renamed to \<open>v\<close>.\<close>

definition rename_column :: "frame \<Rightarrow> string \<Rightarrow> string \<Rightarrow> frame" where
  "rename_column df k v = map (\<lambda>(n, c). (if n = k then v else n, c)) df"

definition col_map :: "(string \<times> string) list" where
  "col_map =
     [(''Recency (months)'', ''Recency''),
      (''Frequency (times)'', ''Frequency''),
      (''Monetary (c.c. blood)'', ''Monetary''),
      (''Time (months)'', ''Time''),
      (''whether he/she donated blood in March 2007'', ''Target'')]"

definition rename_aliases :: "frame \<Rightarrow> frame" where
  "rename_aliases df =
     fold (\<lambda>(k, v) df. if k \<in> set (columns df) then rename_column df k v else df) col_map df"

text \<open>
  \<open>series.astype(int)\<close>.  Integers stay, booleans become 0 and 1, floats are
  truncated towards zero unless one of them is NaN, and the strings of an object
  column go through Python's \<open>int\<close>, which is the parameter \<open>py_int\<close>
  (\<open>None\<close> where \<open>int\<close> raises); a missing value in an object column is a float
  NaN, which \<open>int\<close> rejects.  \<open>read_csv\<close> without \<open>parse_dates\<close> creates no
  date columns; for them the conversion is given as a \<open>TypeError\<close>.
\<close>

definition trunc :: "rat \<Rightarrow> int" where
  "trunc x = (if 0 \<le> x then \<lfloor>x\<rfloor> else \<lceil>x\<rceil>)"

fun astype_int :: "(string \<Rightarrow> int option) \<Rightarrow> column \<Rightarrow> py_error + column" where
  "astype_int py_int (Int64 xs) = Inr (Int64 xs)"
| "astype_int py_int (Boolean xs) = Inr (Int64 (map (\<lambda>b. if b then 1 else 0) xs))"
| "astype_int py_int (Float64 xs) =
     (if None \<in> set xs then Inl (ValueError CannotConvertNonFinite)
      else Inr (Int64 (map (\<lambda>x. trunc (the x)) xs)))"
| "astype_int py_int (Object xs) =
     (case filter (\<lambda>x. case x of None \<Rightarrow> True | Some s \<Rightarrow> py_int s = None) xs of
        [] \<Rightarrow> Inr (Int64 (map (\<lambda>x. the (py_int (the x))) xs))
      | None # _ \<Rightarrow> Inl (ValueError CannotConvertNonFinite)
      | Some s # _ \<Rightarrow> Inl (ValueError (InvalidLiteralForInt s)))"
| "astype_int py_int (Datetime64 xs) = Inl TypeError"
| "astype_int py_int (DateObject xs) = Inl TypeError"

text \<open>
  \<open>df['Target'] = df['Target'].astype(int)\<close>: every column named \<open>Target\<close> is
  converted, in column order, and the first value that cannot be converted raises.
  (There is more than one such column only when a renaming has made two names
  equal.)
\<close>

fun astype_int_named :: "(string \<Rightarrow> int option) \<Rightarrow> string \<Rightarrow> frame \<Rightarrow> py_error + frame" where
  "astype_int_named py_int name [] = Inr []"
| "astype_int_named py_int name ((n, c) # df) =
     (if n = name then
        (case astype_int py_int c of
           Inl e \<Rightarrow> Inl e
         | Inr c' \<Rightarrow>
             (case astype_int_named py_int name df of
                Inl e \<Rightarrow> Inl e
              | Inr df' \<Rightarrow> Inr ((n, c') # df')))
      else
        (case astype_int_named py_int name df of
           Inl e \<Rightarrow> Inl e
         | Inr df' \<Rightarrow> Inr ((n, c) # df')))"

text \<open>
  The file is given by the frame \<open>pd.read_csv(csv_path)\<close> builds from it, whose
  column names are distinct; the alias renaming can make two of them equal.
\<close>

definition load_transfusion :: "(string \<Rightarrow> int option) \<Rightarrow> frame \<Rightarrow> py_error + frame" where
  "load_transfusion py_int file =
     (case read_csv file [] of
        Inl e \<Rightarrow> Inl e
      | Inr df \<Rightarrow>
          (let df = rename_aliases df in
           case (if ''Target'' \<notin> set (columns df) then
                   (case columns df of
                      [] \<Rightarrow> Inl IndexError
                    | _ \<Rightarrow> Inr (rename_column df (last (columns df)) ''Target''))
                 else Inr df) of
             Inl e \<Rightarrow> Inl e
           | Inr df \<Rightarrow>
               (if ''Target'' \<notin> set (columns df) then Inl (KeyError ''Target'')
                else astype_int_named py_int ''Target'' df)))"

section \<open>Classifier, training and evaluation (\<open>train_model\<close>, the prediction tab)\<close>

text \<open>
  The fitted \<open>RandomForestClassifier\<close> is a library object.  It is modelled by what
  its prediction methods read: the sorted distinct training labels \<open>classes\<close> and
  the fitted trees.  A leaf carries one non-negative weight per class; an inner node
  sends a sample left when its feature is at most the threshold.  A tree's class
  probabilities are the leaf's weights divided by their sum (by 1 when the sum is
  0); the forest's are the mean over its trees; \<open>predict\<close> returns the class with
  the largest probability, the first one on a tie.
\<close>

datatype feature = FRecency | FFrequency | FMonetary | FTime

fun feature_value :: "feature \<Rightarrow> rat features \<Rightarrow> rat" where
  "feature_value FRecency x = Recency x"
| "feature_value FFrequency x = Frequency x"
| "feature_value FMonetary x = Monetary x"
| "feature_value FTime x = Time x"

datatype tree = Leaf "rat list" | Node feature rat tree tree

fun leaf_value :: "tree \<Rightarrow> rat features \<Rightarrow> rat list" where
  "leaf_value (Leaf ws) x = ws"
| "leaf_value (Node f thr l r) x =
     (if feature_value f x \<le> thr then leaf_value l x else leaf_value r x)"

definition tree_proba :: "tree \<Rightarrow> rat features \<Rightarrow> rat list" where
  "tree_proba t x =
     (let ws = leaf_value t x;
          normalizer = (if sum_list ws = 0 then 1 else sum_list ws)
      in map (\<lambda>w. w / normalizer) ws)"

record forest =
  classes :: "int list"
  estimators :: "tree list"

definition predict_proba :: "forest \<Rightarrow> rat features \<Rightarrow> rat list" where
  "predict_proba model x =
     map (\<lambda>k. sum_list (map (\<lambda>t. tree_proba t x ! k) (estimators model)) /
               of_nat (length (estimators model)))
       [0..<length (classes model)]"


fun argmax_from :: "rat list \<Rightarrow> nat \<Rightarrow> nat \<Rightarrow> rat \<Rightarrow> nat" where
  "argmax_from [] i best_i best = best_i"
| "argmax_from (p # ps) i best_i best =
     (if best < p then argmax_from ps (i + 1) i p else argmax_from ps (i + 1) best_i best)"

definition argmax :: "rat list \<Rightarrow> nat" where
  "argmax ps = (case ps of [] \<Rightarrow> 0 | p # ps' \<Rightarrow> argmax_from ps' 1 0 p)"

definition predict :: "forest \<Rightarrow> rat features \<Rightarrow> int" where
  "predict model x = classes model ! argmax (predict_proba model x)"




text \<open>\<open>accuracy_score\<close>: the fraction of positions where prediction and label agree.\<close>

definition accuracy_score :: "int list \<Rightarrow> int list \<Rightarrow> rat" where
  "accuracy_score y_true y_pred =
     of_nat (length (filter (\<lambda>(a, b). a = b) (zip y_true y_pred))) / of_nat (length y_true)"

text \<open>
  \<open>roc_auc_score\<close> on labels and one score per row.  With exactly two distinct
  labels the larger one is the positive class and the score is the fraction of
  (positive, negative) pairs in which the positive row has the higher score, a tie
  counting one half.  With one label the metric is undefined and with more than two
  a one-dimensional score is rejected: a \<open>ValueError\<close> either way.
\<close>

definition roc_auc_score :: "int list \<Rightarrow> rat list \<Rightarrow> py_error + rat" where
  "roc_auc_score y_true y_score =
     (let labels = sort (remdups y_true) in
      if length labels < 2 then Inl (ValueError OnlyOneClassPresent)
      else if length labels > 2 then Inl (ValueError MulticlassNotSupported)
      else
        (let pos = map snd (filter (\<lambda>(l, s). l = labels ! 1) (zip y_true y_score));
             neg = map snd (filter (\<lambda>(l, s). l = labels ! 0) (zip y_true y_score))
         in Inr (sum_list (map (\<lambda>p. sum_list (map (\<lambda>q. if q < p then 1 else if q = p then 1 / 2 else 0) neg)) pos)
                 / of_nat (length pos * length neg))))"

text \<open>Fancy indexing: rows by position, an \<open>IndexError\<close> for a position out of range.\<close>

definition take_rows :: "'a list \<Rightarrow> nat list \<Rightarrow> py_error + 'a list" where
  "take_rows xs idx =
     (if \<forall>i \<in> set idx. i < length xs then Inr (map (\<lambda>i. xs ! i) idx) else Inl IndexError)"

text \<open>
  \<open>train_model\<close>, on the rows \<open>X\<close> of \<open>df[['Recency', 'Frequency', 'Monetary',
  'Time']]\<close> and the labels \<open>y\<close> of \<open>df['Target']\<close>.  Two library calls are
  parameters: \<open>train_test_split\<close> (with \<open>test_size = 0.2\<close>, \<open>random_state = 42\<close>
  and \<open>stratify = y\<close>), given by the row positions it puts in the training and in
  the holdout partition, or the error it raises; and the fitting of the forest
  (with \<open>random_state = 42\<close>), given by the trees it builds.  The \<open>try\<close> around
  \<open>roc_auc_score\<close> turns any exception into NaN, which is \<open>None\<close> here.
\<close>

definition train_model ::
  "(int list \<Rightarrow> py_error + nat list \<times> nat list) \<Rightarrow>
   (rat features list \<Rightarrow> int list \<Rightarrow> tree list) \<Rightarrow>
   int features list \<Rightarrow> int list \<Rightarrow>
   py_error + (forest \<times> feature_stats features \<times> rat \<times> rat option)" where
  "train_model train_test_split fit X y =
     (case MinMaxScaler_fit X of Inl e \<Rightarrow> Inl e | Inr scaler \<Rightarrow>
      let X_scaled = map (MinMaxScaler_transform scaler) X in
      case train_test_split y of Inl e \<Rightarrow> Inl e | Inr (train, test) \<Rightarrow>
      case take_rows X_scaled train of Inl e \<Rightarrow> Inl e | Inr X_train \<Rightarrow>
      case take_rows X_scaled test of Inl e \<Rightarrow> Inl e | Inr X_test \<Rightarrow>
      case take_rows y train of Inl e \<Rightarrow> Inl e | Inr y_train \<Rightarrow>
      case take_rows y test of Inl e \<Rightarrow> Inl e | Inr y_test \<Rightarrow>
      let model = \<lparr>classes = sort (remdups y_train), estimators = fit X_train y_train\<rparr>;
          y_pred = map (predict model) X_test
      in if length (classes model) \<le> 1 then Inl IndexError
         else
           (let y_proba = map (\<lambda>x. predict_proba model x ! 1) X_test;
                acc = accuracy_score y_test y_pred;
                auc = (case roc_auc_score y_test y_proba of
                         Inl e \<Rightarrow> None
                       | Inr a \<Rightarrow> Some a)
            in Inr (model, scaler, acc, auc)))"

text \<open>
  The two metrics at the top of the page: the accuracy as a percentage, and the
  ROC AUC as a percentage or, when it is NaN, a dash.
\<close>

datatype metric_text = Percent rat | Dash

definition top_kpis :: "rat \<Rightarrow> rat option \<Rightarrow> metric_text \<times> metric_text" where
  "top_kpis acc auc =
     (Percent (acc * 100), (case auc of None \<Rightarrow> Dash | Some a \<Rightarrow> Percent (a * 100)))"

text \<open>
  Five rows with labels that are all 0 or of both classes, the statistics fitted on
  the rows, a split that holds out the last row, and two fitted forests (one
  single-leaf tree for one class, two trees for two classes), used to evaluate
  \<open>train_model\<close> and the prediction tab.
\<close>

definition five_rows :: "int features list" where
  "five_rows =
     [\<lparr>Recency = 2, Frequency = 50, Monetary = 12500, Time = 98\<rparr>,
      \<lparr>Recency = 0, Frequency = 13, Monetary = 3250, Time = 28\<rparr>,
      \<lparr>Recency = 1, Frequency = 16, Monetary = 4000, Time = 35\<rparr>,
      \<lparr>Recency = 2, Frequency = 20, Monetary = 5000, Time = 45\<rparr>,
      \<lparr>Recency = 1, Frequency = 24, Monetary = 6000, Time = 77\<rparr>]"

definition one_class_labels :: "int list" where
  "one_class_labels = [0, 0, 0, 0, 0]"

definition split_last_row :: "int list \<Rightarrow> py_error + nat list \<times> nat list" where
  "split_last_row y = Inr ([0, 1, 2, 3], [4])"

definition fit_single_leaf :: "rat features list \<Rightarrow> int list \<Rightarrow> tree list" where
  "fit_single_leaf X_train y_train = [Leaf [of_nat (length y_train)]]"





section \<open>Leaderboard (\<open>sort_values\<close>, \<open>reset_index\<close>, \<open>rank\<close>)\<close>









section \<open>Example tables\<close>

text \<open>
  Three tables without a label column, used to evaluate the loader: in the first
  the last column holds integers, in the second the last column takes, after the
  alias renaming, the name of another column, in the third it has a missing value.
  The second argument of \<open>load_transfusion\<close> there is a parser that accepts
  nothing, which these tables never consult.
\<close>

definition table_without_label :: frame where
  "table_without_label =
     [(''Recency (months)'', Int64 [2, 0]),
      (''Frequency (times)'', Int64 [50, 13]),
      (''Monetary (c.c. blood)'', Int64 [12500, 3250]),
      (''Time (months)'', Int64 [98, 28]),
      (''donated'', Int64 [1, 0])]"

definition table_with_two_time_columns :: frame where
  "table_with_two_time_columns =
     [(''Recency (months)'', Int64 [2, 0]),
      (''Frequency (times)'', Int64 [50, 13]),
      (''Monetary (c.c. blood)'', Int64 [12500, 3250]),
      (''Time (months)'', Int64 [98, 28]),
      (''Time'', Boolean [True, False])]"

definition table_with_gap_in_last_column :: frame where
  "table_with_gap_in_last_column =
     [(''Recency (months)'', Int64 [2, 0]),
      (''Frequency (times)'', Int64 [50, 13]),
      (''Monetary (c.c. blood)'', Int64 [12500, 3250]),
      (''Time (months)'', Int64 [98, 28]),
      (''remarks'', Float64 [Some 1, None])]"

text \<open>
  Uploads used to evaluate the parser: one without \<open>blood_group\<close>, the same
  with a date column pandas could not parse, one without the date column, a
  complete one without \<open>contribution_score\<close>, and one whose donation count
  overflows when multiplied; and a generator that always draws the same values.
\<close>

definition roster_without_blood_group :: frame where
  "roster_without_blood_group =
     [(''name'', Object [Some ''Asha'']),
      (''gender'', Object [Some ''Female'']),
      (''last_donation_date'', Datetime64 [Some 739800]),
      (''total_donations'', Int64 [4])]"

definition roster_with_unparsed_dates :: frame where
  "roster_with_unparsed_dates =
     [(''name'', Object [Some ''Asha'']),
      (''gender'', Object [Some ''Female'']),
      (''last_donation_date'', Object [Some ''last spring'']),
      (''total_donations'', Int64 [4])]"

definition roster_without_dates :: frame where
  "roster_without_dates =
     [(''name'', Object [Some ''Asha'']),
      (''gender'', Object [Some ''Female'']),
      (''blood_group'', Object [Some ''B+'']),
      (''total_donations'', Int64 [4])]"



definition constant_draws :: "int \<Rightarrow> nat \<Rightarrow> np_draws" where
  "constant_draws seed n =
     \<lparr>genders_draw = (\<lambda>i. ''Male''), blood_groups_draw = (\<lambda>i. ''B+''),
      last_days_ago_draw = (\<lambda>i. 100), total_units_draw = (\<lambda>i. 3)\<rparr>"



section \<open>Theorems\<close>

subsection \<open>Float64 rounding\<close>

lemma rne_of_int [simp]: "rne (of_int n) = n"
  by (simp add: rne_def)

lemma rne_cases:
  obtains "rne r = \<lfloor>r\<rfloor>" and "r - of_int \<lfloor>r\<rfloor> \<le> 1 / 2"
  | "rne r = \<lfloor>r\<rfloor> + 1" and "1 / 2 \<le> r - of_int \<lfloor>r\<rfloor>"
proof (cases "r - of_int \<lfloor>r\<rfloor> < 1 / 2")
  case True
  then have "rne r = \<lfloor>r\<rfloor>" by (simp add: rne_def Let_def)
  then show ?thesis using True that(1) by simp
next
  case False
  show ?thesis
  proof (cases "1 / 2 < r - of_int \<lfloor>r\<rfloor>")
    case True
    then have "rne r = \<lfloor>r\<rfloor> + 1" using False by (simp add: rne_def Let_def)
    then show ?thesis using True that(2) by simp
  next
    case F2: False
    then have eq: "r - of_int \<lfloor>r\<rfloor> = 1 / 2" using False by simp
    show ?thesis
    proof (cases "even \<lfloor>r\<rfloor>")
      case True
      then have "rne r = \<lfloor>r\<rfloor>" using False F2 by (simp add: rne_def Let_def)
      then show ?thesis using eq that(1) by simp
    next
      case False
      then have "rne r = \<lfloor>r\<rfloor> + 1" using \<open>\<not> r - of_int \<lfloor>r\<rfloor> < 1 / 2\<close> F2
        by (simp add: rne_def Let_def)
      then show ?thesis using eq that(2) by simp
    qed
  qed
qed

lemma rne_bounds: "r - 1 / 2 \<le> of_int (rne r) \<and> of_int (rne r) \<le> r + 1 / 2"
proof -
  have a: "of_int \<lfloor>r\<rfloor> \<le> r" and b: "r < of_int \<lfloor>r\<rfloor> + 1" by linarith+
  show ?thesis
  proof (cases r rule: rne_cases)
    case 1
    have "(of_int (rne r) :: rat) = of_int \<lfloor>r\<rfloor>" using 1(1) by simp
    then show ?thesis using a 1(2) by linarith
  next
    case 2
    have "(of_int (rne r) :: rat) = of_int \<lfloor>r\<rfloor> + 1" using 2(1) by simp
    then show ?thesis using b 2(2) by linarith
  qed
qed

lemma rne_mono:
  assumes "r \<le> s"
  shows "rne r \<le> rne s"
proof -
  have fr: "\<lfloor>r\<rfloor> \<le> \<lfloor>s\<rfloor>" using assms by (rule floor_mono)
  show ?thesis
  proof (cases "\<lfloor>r\<rfloor> = \<lfloor>s\<rfloor>")
    case True
    then have d: "r - of_int \<lfloor>r\<rfloor> \<le> s - of_int \<lfloor>r\<rfloor>" using assms by simp
    show ?thesis
    proof (cases r rule: rne_cases)
      case 1
      then show ?thesis using True by (cases s rule: rne_cases) simp_all
    next
      case r2: 2
      show ?thesis
      proof (cases "1 / 2 < s - of_int \<lfloor>r\<rfloor>")
        case True
        then have "rne s = \<lfloor>s\<rfloor> + 1"
          using \<open>\<lfloor>r\<rfloor> = \<lfloor>s\<rfloor>\<close> by (simp add: rne_def Let_def)
        then show ?thesis using r2(1) \<open>\<lfloor>r\<rfloor> = \<lfloor>s\<rfloor>\<close> by simp
      next
        case False
        then have "s - of_int \<lfloor>r\<rfloor> = 1 / 2" "r - of_int \<lfloor>r\<rfloor> = 1 / 2"
          using d r2(2) by simp_all
        then have "r = s" by simp
        then show ?thesis by simp
      qed
    qed
  next
    case False
    then have "\<lfloor>r\<rfloor> + 1 \<le> \<lfloor>s\<rfloor>" using fr by simp
    moreover have "rne r \<le> \<lfloor>r\<rfloor> + 1" by (cases r rule: rne_cases) simp_all
    moreover have "\<lfloor>s\<rfloor> \<le> rne s" by (cases s rule: rne_cases) simp_all
    ultimately show ?thesis by linarith
  qed
qed

lemma floor_minus_non_int:
  fixes r :: rat
  assumes "r \<noteq> of_int \<lfloor>r\<rfloor>"
  shows "\<lfloor>- r\<rfloor> = - \<lfloor>r\<rfloor> - 1"
proof -
  have "of_int \<lfloor>r\<rfloor> < r" using assms by (metis of_int_floor_le order_less_le)
  moreover have "r < of_int \<lfloor>r\<rfloor> + 1" by linarith
  ultimately show ?thesis by (intro floor_unique) simp_all
qed

lemma rne_minus: "rne (- r) = - rne r"
proof (cases "r = of_int \<lfloor>r\<rfloor>")
  case True
  then obtain n where "r = of_int n" ..
  then have "- r = of_int (- n)" by simp
  then show ?thesis using \<open>r = of_int n\<close> by (simp only: rne_of_int)
next
  case False
  then have f: "\<lfloor>- r\<rfloor> = - \<lfloor>r\<rfloor> - 1" by (rule floor_minus_non_int)
  define d where "d = r - of_int \<lfloor>r\<rfloor>"
  have d': "- r - of_int (- \<lfloor>r\<rfloor> - 1) = 1 - d" by (simp add: d_def)
  have ev: "even (- \<lfloor>r\<rfloor> - 1) \<longleftrightarrow> odd \<lfloor>r\<rfloor>" by simp
  have l: "rne r = (if d < 1 / 2 then \<lfloor>r\<rfloor> else if 1 / 2 < d then \<lfloor>r\<rfloor> + 1
      else if even \<lfloor>r\<rfloor> then \<lfloor>r\<rfloor> else \<lfloor>r\<rfloor> + 1)"
    by (simp add: rne_def Let_def d_def)
  have r: "rne (- r) = (if 1 - d < 1 / 2 then - \<lfloor>r\<rfloor> - 1 else if 1 / 2 < 1 - d then - \<lfloor>r\<rfloor>
      else if odd \<lfloor>r\<rfloor> then - \<lfloor>r\<rfloor> - 1 else - \<lfloor>r\<rfloor>)"
    unfolding rne_def Let_def f d' ev by simp
  show ?thesis unfolding l r by auto
qed

lemma bitlen_powi_bounds:
  assumes "0 < n"
  shows "power_int (2::rat) (bitlen n - 1) \<le> of_int n" and "of_int n < power_int (2::rat) (bitlen n)"
proof -
  have b: "2 ^ nat (bitlen n - 1) \<le> n" "n < 2 ^ nat (bitlen n)"
    using bitlen_bounds [OF assms] by simp_all
  have ge1: "1 \<le> bitlen n"
    using assms bitlen_eq_zero_iff [of n] bitlen_nonneg [of n] by linarith
  have "(of_int (2 ^ nat (bitlen n - 1)) :: rat) \<le> of_int n"
    using b(1) by (simp only: of_int_le_iff)
  then show "power_int (2::rat) (bitlen n - 1) \<le> of_int n"
    using ge1 by (simp add: power_int_def)
  have "(of_int n :: rat) < of_int (2 ^ nat (bitlen n))"
    using b(2) by (simp only: of_int_less_iff)
  then show "of_int n < power_int (2::rat) (bitlen n)"
    using ge1 by (simp add: power_int_def)
qed

lemma float_exponent_bounds:
  assumes "0 < x"
  shows "power_int 2 (float_exponent x) \<le> x" and "x < power_int 2 (float_exponent x + 1)"
proof -
  obtain a b where q: "quotient_of x = (a, b)" by (cases "quotient_of x")
  have bpos: "0 < b" using q by (rule quotient_of_denom_pos)
  have x: "x = of_int a / of_int b" using q by (rule quotient_of_div)
  have apos: "0 < a" using assms bpos x by (simp add: zero_less_divide_iff)
  define d where "d = bitlen a - bitlen b"
  note ba = bitlen_powi_bounds [OF apos] and bb = bitlen_powi_bounds [OF bpos]
  have bq: "(0::rat) < of_int b" using bpos by simp
  have p: "\<And>k. (0::rat) < power_int (2::rat) k" by simp
  have up: "x < power_int 2 (d + 1)"
  proof -
    have "x * of_int b = of_int a" using x bq by simp
    also have "\<dots> < power_int 2 (bitlen a)" by (rule ba(2))
    also have "\<dots> = power_int 2 (d + 1) * power_int 2 (bitlen b - 1)"
      by (simp add: d_def flip: power_int_add)
    also have "\<dots> \<le> power_int 2 (d + 1) * of_int b"
      using bb(1) p by (simp add: mult_left_mono less_imp_le)
    finally show ?thesis using bq by simp
  qed
  have lo: "power_int 2 (d - 1) < x"
  proof -
    have "power_int (2::rat) (d - 1) * of_int b < power_int 2 (d - 1) * power_int 2 (bitlen b)"
      using bb(2) p by (simp add: mult_strict_left_mono)
    also have "\<dots> = power_int 2 (bitlen a - 1)"
      by (simp add: d_def flip: power_int_add)
    also have "\<dots> \<le> of_int a" by (rule ba(1))
    also have "\<dots> = x * of_int b" using x bq by simp
    finally show ?thesis using bq by simp
  qed
  have fe: "float_exponent x = (if power_int 2 d \<le> x then d else d - 1)"
    by (simp add: float_exponent_def q d_def)
  show "power_int 2 (float_exponent x) \<le> x"
    using lo by (simp add: fe less_imp_le)
  show "x < power_int 2 (float_exponent x + 1)"
    using up by (simp add: fe not_le)
qed

lemma pow2_less_iff: "power_int (2::rat) m < power_int 2 n \<longleftrightarrow> m < n"
proof
  assume a: "power_int (2::rat) m < power_int 2 n"
  show "m < n"
  proof (rule ccontr)
    assume "\<not> m < n"
    then have "n \<le> m" by simp
    then have "power_int (2::rat) n \<le> power_int 2 m" by (intro power_int_increasing) simp_all
    with a show False by simp
  qed
next
  assume "m < n"
  then show "power_int (2::rat) m < power_int 2 n" by (intro power_int_strict_increasing) simp_all
qed

lemma pow2_le_iff: "power_int (2::rat) m \<le> power_int 2 n \<longleftrightarrow> m \<le> n"
  using pow2_less_iff [of n m] by (simp add: not_less [symmetric])


lemma float64_zero [simp]: "float64 0 = 0"
  by (simp add: float64_def)

lemma float64_minus: "float64 (- x) = - float64 x"
  by (simp add: float64_def Let_def)

lemma float64_pos:
  assumes "0 < x"
  shows "float64 x = of_int (rne (x / power_int 2 (float_exponent x - 52))) * power_int 2 (float_exponent x - 52)"
  using assms by (simp add: float64_def Let_def)

lemma pow2_split_52: "power_int (2::rat) e = 2 ^ 52 * power_int 2 (e - 52)"
proof -
  have "power_int (2::rat) e = power_int 2 (52 + (e - 52))"
    by (rule arg_cong [where f = "power_int 2"]) simp
  also have "\<dots> = power_int 2 52 * power_int 2 (e - 52)"
    by (rule power_int_add) simp
  finally show ?thesis by simp
qed

lemma pow2_split_53: "power_int (2::rat) (e + 1) = 2 ^ 53 * power_int 2 (e - 52)"
proof -
  have "power_int (2::rat) (e + 1) = power_int 2 (53 + (e - 52))"
    by (rule arg_cong [where f = "power_int 2"]) simp
  also have "\<dots> = power_int 2 53 * power_int 2 (e - 52)"
    by (rule power_int_add) simp
  finally show ?thesis by simp
qed

lemma mantissa_bounds:
  assumes "0 < x"
  shows "2 ^ 52 \<le> rne (x / power_int 2 (float_exponent x - 52))"
    and "rne (x / power_int 2 (float_exponent x - 52)) \<le> 2 ^ 53"
proof -
  let ?e = "float_exponent x"
  let ?q = "power_int (2::rat) (?e - 52)"
  have q: "0 < ?q" by simp
  note b = float_exponent_bounds [OF assms]
  have e1: "power_int (2::rat) ?e = 2 ^ 52 * ?q" by (rule pow2_split_52)
  have e2: "power_int (2::rat) (?e + 1) = 2 ^ 53 * ?q" by (rule pow2_split_53)
  have "(2::rat) ^ 52 \<le> x / ?q" using b(1) q by (simp add: e1 pos_le_divide_eq)
  then have "rne (2 ^ 52) \<le> rne (x / ?q)" by (rule rne_mono)
  moreover have "rne ((2::rat) ^ 52) = 2 ^ 52"
    using rne_of_int [of "2 ^ 52"] by simp
  ultimately show "2 ^ 52 \<le> rne (x / ?q)" by simp
  have "x / ?q \<le> (2::rat) ^ 53" using b(2) q by (simp add: e2 pos_divide_le_eq less_imp_le)
  then have "rne (x / ?q) \<le> rne (2 ^ 53)" by (rule rne_mono)
  moreover have "rne ((2::rat) ^ 53) = 2 ^ 53"
    using rne_of_int [of "2 ^ 53"] by simp
  ultimately show "rne (x / ?q) \<le> 2 ^ 53" by simp
qed

lemma float64_pos_bounds:
  assumes "0 < x"
  shows "power_int 2 (float_exponent x) \<le> float64 x"
    and "float64 x \<le> power_int 2 (float_exponent x + 1)"
proof -
  let ?e = "float_exponent x"
  let ?q = "power_int (2::rat) (?e - 52)"
  let ?n = "rne (x / ?q)"
  have q: "0 < ?q" by simp
  note m = mantissa_bounds [OF assms]
  have e1: "power_int (2::rat) ?e = 2 ^ 52 * ?q" by (rule pow2_split_52)
  have e2: "power_int (2::rat) (?e + 1) = 2 ^ 53 * ?q" by (rule pow2_split_53)
  have "(of_int (2 ^ 52) :: rat) \<le> of_int ?n" using m(1) by (simp only: of_int_le_iff)
  then have "(2::rat) ^ 52 * ?q \<le> of_int ?n * ?q" using q by (simp add: mult_right_mono)
  then show "power_int 2 ?e \<le> float64 x" by (simp add: float64_pos [OF assms] e1)
  have "(of_int ?n :: rat) \<le> of_int (2 ^ 53)" using m(2) by (simp only: of_int_le_iff)
  then have "of_int ?n * ?q \<le> (2::rat) ^ 53 * ?q" using q by (simp add: mult_right_mono)
  then show "float64 x \<le> power_int 2 (?e + 1)" by (simp add: float64_pos [OF assms] e2)
qed

lemma float64_pos_pos: "0 < x \<Longrightarrow> 0 < float64 x"
proof -
  assume a: "0 < x"
  have "(0::rat) < power_int 2 (float_exponent x)" by simp
  then show ?thesis using float64_pos_bounds(1) [OF a] by linarith
qed

lemma float64_mono_pos:
  assumes "0 < x" and "x \<le> y"
  shows "float64 x \<le> float64 y"
proof -
  have y: "0 < y" using assms by simp
  note bx = float_exponent_bounds [OF assms(1)] and bz = float_exponent_bounds [OF y]
  have "power_int (2::rat) (float_exponent x) < power_int 2 (float_exponent y + 1)"
    using bx(1) bz(2) assms(2) by linarith
  then have le: "float_exponent x \<le> float_exponent y" by (simp add: pow2_less_iff)
  show ?thesis
  proof (cases "float_exponent x = float_exponent y")
    case True
    let ?q = "power_int (2::rat) (float_exponent y - 52)"
    have q: "0 < ?q" by simp
    have "x / ?q \<le> y / ?q" using assms(2) q by (simp add: divide_right_mono)
    then have "rne (x / ?q) \<le> rne (y / ?q)" by (rule rne_mono)
    then have "(of_int (rne (x / ?q)) :: rat) * ?q \<le> of_int (rne (y / ?q)) * ?q"
      using q by (simp add: mult_right_mono)
    then show ?thesis by (simp add: float64_pos [OF assms(1)] float64_pos [OF y] True)
  next
    case False
    then have "float_exponent x + 1 \<le> float_exponent y" using le by simp
    then have "power_int (2::rat) (float_exponent x + 1) \<le> power_int 2 (float_exponent y)"
      by (simp add: pow2_le_iff)
    then show ?thesis
      using float64_pos_bounds(2) [OF assms(1)] float64_pos_bounds(1) [OF y] by linarith
  qed
qed

lemma float64_mono:
  assumes "x \<le> y"
  shows "float64 x \<le> float64 y"
proof -
  consider "0 < x" | "x = 0" | "x < 0" "0 \<le> y" | "x < 0" "y < 0" by linarith
  then show ?thesis
  proof cases
    case 1
    then show ?thesis using assms by (rule float64_mono_pos)
  next
    case 2
    then show ?thesis
      using assms float64_pos_pos [of y] by (cases "y = 0") (auto simp: less_le)
  next
    case 3
    have "float64 x < 0" using float64_pos_pos [of "- x"] 3(1) by (simp add: float64_minus)
    moreover have "0 \<le> float64 y"
      using float64_pos_pos [of y] 3(2) by (cases "y = 0") (auto simp: less_le)
    ultimately show ?thesis by simp
  next
    case 4
    have "float64 (- y) \<le> float64 (- x)"
      using 4 assms by (intro float64_mono_pos) simp_all
    then show ?thesis by (simp add: float64_minus)
  qed
qed

lemma float64_nonneg: "0 \<le> x \<Longrightarrow> 0 \<le> float64 x"
  using float64_mono [of 0 x] by simp



subsection \<open>Eligibility\<close>

lemma compute_eligibility_in_range:
  assumes "is_date last_donation" and "30 \<le> c" and "c \<le> 200"
    and "last_donation + c \<le> date_max"
  shows "compute_eligibility today last_donation c =
           Inr (today \<ge> last_donation + c, last_donation + c,
                max 0 (last_donation + c - today))"
proof -
  have td: "timedelta c = Inr c"
    using assms(2,3) by (simp add: timedelta_def)
  have "is_date (last_donation + c)"
    using assms by (simp add: is_date_def date_min_def)
  then have "date_add last_donation c = Inr (last_donation + c)"
    by (simp add: date_add_def)
  with td show ?thesis
    by (simp add: compute_eligibility_def Let_def max_def)
qed

text \<open>
  Claim C2, as the code has it.  For every date \<open>last_donation\<close> and every cooldown
  between 30 and 200 days whose sum is still a date (not after 9999-12-31),
  \<open>compute_eligibility\<close> returns \<open>next_eligible = last_donation + cooldown\<close>,
  \<open>eligible = (today \<ge> next_eligible)\<close> and
  \<open>days_left = max 0 (next_eligible - today)\<close>.  With a cooldown of 90 days, a last
  donation 120 days ago is eligible with 0 days left, and one 10 days ago is not
  eligible with 80 days left.
\<close>

theorem compute_eligibility_contract:
  "(is_date last_donation \<and> 30 \<le> c \<and> c \<le> 200 \<and> last_donation + c \<le> date_max \<longrightarrow>
      compute_eligibility today last_donation c =
        Inr (today \<ge> last_donation + c, last_donation + c,
             max 0 (last_donation + c - today)))
   \<and> (is_date today \<and> is_date (today - 120) \<longrightarrow>
      compute_eligibility today (today - 120) 90 = Inr (True, today - 30, 0))
   \<and> (is_date today \<and> is_date (today - 10) \<and> today + 80 \<le> date_max \<longrightarrow>
      compute_eligibility today (today - 10) 90 = Inr (False, today + 80, 80))"
proof (intro conjI impI)
  assume "is_date last_donation \<and> 30 \<le> c \<and> c \<le> 200 \<and> last_donation + c \<le> date_max"
  then show "compute_eligibility today last_donation c =
        Inr (today \<ge> last_donation + c, last_donation + c,
             max 0 (last_donation + c - today))"
    using compute_eligibility_in_range by blast
next
  assume a: "is_date today \<and> is_date (today - 120)"
  then have "today - 120 + 90 \<le> date_max"
    by (simp add: is_date_def)
  with a have "compute_eligibility today (today - 120) 90 =
      Inr (today \<ge> today - 120 + 90, today - 120 + 90, max 0 (today - 120 + 90 - today))"
    using compute_eligibility_in_range [of "today - 120" 90 today] by simp
  then show "compute_eligibility today (today - 120) 90 = Inr (True, today - 30, 0)"
    by simp
next
  assume a: "is_date today \<and> is_date (today - 10) \<and> today + 80 \<le> date_max"
  then have "compute_eligibility today (today - 10) 90 =
      Inr (today \<ge> today - 10 + 90, today - 10 + 90, max 0 (today - 10 + 90 - today))"
    using compute_eligibility_in_range [of "today - 10" 90 today] by simp
  then show "compute_eligibility today (today - 10) 90 = Inr (False, today + 80, 80)"
    by simp
qed

theorem compute_eligibility_contract_witness:
  "is_date 739925 \<and> is_date 739805 \<and> is_date 739915 \<and> (30::int) \<le> 90 \<and> (90::int) \<le> 200
   \<and> 739805 + 90 \<le> date_max \<and> 739925 + 80 \<le> date_max
   \<and> compute_eligibility 739925 739805 90 = Inr (True, 739895, 0)
   \<and> compute_eligibility 739925 739915 90 = Inr (False, 740005, 80)"
  using compute_eligibility_contract [of 739805 90 739925]
  by (simp add: is_date_def date_min_def date_max_def)

text \<open>
  Claim C2 as written quantifies over every date.  On 9999-12-31 the sum is not a
  date and the addition raises \<open>OverflowError\<close>: no result triple is returned.
\<close>

theorem compute_eligibility_overflow_counterexample:
  "is_date 3652059 \<and> compute_eligibility 739925 3652059 30 = Inl OverflowError"
  by (simp add: compute_eligibility_def timedelta_def date_add_def is_date_def
      date_min_def date_max_def)

subsection \<open>Feature normalizer\<close>

lemma fit_feature_Inr:
  assumes "xs \<noteq> []"
  shows "fit_feature xs =
    Inr \<lparr>data_min = Min (set xs), data_max = Max (set xs),
         scale = 1 / of_int (handle_zeros_in_scale (Max (set xs) - Min (set xs))),
         offset = 0 - of_int (Min (set xs)) *
           (1 / of_int (handle_zeros_in_scale (Max (set xs) - Min (set xs))))\<rparr>"
  using assms
  by (simp add: fit_feature_def checked_div_def handle_zeros_in_scale_def Let_def)

lemma fit_feature_nonempty: "fit_feature xs = Inr st \<Longrightarrow> xs \<noteq> []"
  by (auto simp: fit_feature_def)

lemma fit_feature_bounds:
  assumes "fit_feature xs = Inr st" and "x \<in> set xs"
  shows "data_min st \<le> x \<and> x \<le> data_max st"
proof -
  have "xs \<noteq> []" using assms(2) by auto
  from fit_feature_Inr [OF this] assms(1)
  have "data_min st = Min (set xs)" and "data_max st = Max (set xs)" by auto
  then show ?thesis using assms(2) by simp
qed

lemma transform_feature_unit:
  assumes "fit_feature xs = Inr st" and "data_min st \<le> v" and "v \<le> data_max st"
  shows "0 \<le> transform_feature st v \<and> transform_feature st v \<le> 1"
proof -
  have ne: "xs \<noteq> []" using assms(1) by (rule fit_feature_nonempty)
  define lo where "lo = Min (set xs)"
  define hi where "hi = Max (set xs)"
  have st: "st = \<lparr>data_min = lo, data_max = hi,
      scale = 1 / of_int (handle_zeros_in_scale (hi - lo)),
      offset = 0 - of_int lo * (1 / of_int (handle_zeros_in_scale (hi - lo)))\<rparr>"
    using fit_feature_Inr [OF ne] assms(1) by (simp add: lo_def hi_def)
  have lv: "lo \<le> v" and vh: "v \<le> hi" using assms(2,3) st by simp_all
  have tf: "transform_feature st v =
      (of_int v - of_int lo) / of_int (handle_zeros_in_scale (hi - lo))"
    by (simp add: st transform_feature_def diff_divide_distrib)
  show ?thesis
  proof (cases "hi = lo")
    case True
    then have "v = lo" using lv vh by simp
    then have "transform_feature st v = 0" using tf by simp
    then show ?thesis by simp
  next
    case False
    then have pos: "0 < hi - lo" using lv vh by simp
    then have hz: "handle_zeros_in_scale (hi - lo) = hi - lo"
      by (simp add: handle_zeros_in_scale_def)
    have d: "(0::rat) < of_int (hi - lo)" using pos by simp
    have n0: "(0::rat) \<le> of_int (v - lo)" using lv by simp
    have n1: "(of_int (v - lo) :: rat) \<le> of_int (hi - lo)" using vh by simp
    have "transform_feature st v = of_int (v - lo) / of_int (hi - lo)"
      by (simp add: tf hz)
    then show ?thesis using d n0 n1 by (simp add: divide_le_eq_1)
  qed
qed

lemma MinMaxScaler_fit_columns:
  assumes "MinMaxScaler_fit X = Inr scaler"
  shows "fit_feature (map Recency X) = Inr (Recency scaler)"
    and "fit_feature (map Frequency X) = Inr (Frequency scaler)"
    and "fit_feature (map Monetary X) = Inr (Monetary scaler)"
    and "fit_feature (map Time X) = Inr (Time scaler)"
  using assms by (auto simp: MinMaxScaler_fit_def split: sum.splits)

lemma within_fitted_range_unit:
  assumes "MinMaxScaler_fit X = Inr scaler" and "within_fitted_range scaler x"
  shows "in_unit_interval (MinMaxScaler_transform scaler x)"
  using assms(2) MinMaxScaler_fit_columns [OF assms(1)]
  by (simp add: within_fitted_range_def in_unit_interval_def MinMaxScaler_transform_def
      transform_feature_unit)

lemma fitted_rows_within_range:
  assumes "MinMaxScaler_fit X = Inr scaler" and "x \<in> set X"
  shows "within_fitted_range scaler x"
proof -
  note cols = MinMaxScaler_fit_columns [OF assms(1)]
  have "Recency x \<in> set (map Recency X)" "Frequency x \<in> set (map Frequency X)"
    "Monetary x \<in> set (map Monetary X)" "Time x \<in> set (map Time X)"
    using assms(2) by simp_all
  then show ?thesis
    using cols by (simp add: within_fitted_range_def fit_feature_bounds)
qed

lemma handle_zeros_in_scale64_pos: "0 < handle_zeros_in_scale64 r"
proof -
  have "(0::rat) < 10 * eps64" by (simp add: eps64_def)
  then show ?thesis by (auto simp: handle_zeros_in_scale64_def not_less intro: less_le_trans)
qed

lemma fit_feature64_Inr:
  assumes "xs \<noteq> []"
  shows "\<exists>s. 0 \<le> s \<and> fit_feature64 xs =
    Inr \<lparr>min64 = Min (set (map to_float64 xs)), max64 = Max (set (map to_float64 xs)),
         scale64 = s,
         offset64 = float64 (0 - float64 (Min (set (map to_float64 xs)) * s))\<rparr>"
proof -
  let ?r = "float64 (Max (set (map to_float64 xs)) - Min (set (map to_float64 xs)))"
  let ?h = "handle_zeros_in_scale64 ?r"
  have h: "0 < ?h" by (rule handle_zeros_in_scale64_pos)
  then have "0 \<le> 1 / ?h" by simp
  then have "0 \<le> float64 (1 / ?h)" by (rule float64_nonneg)
  moreover have "checked_div (1 - 0) ?h = Inr (1 / ?h)"
    using h by (simp add: checked_div_def)
  ultimately show ?thesis
    using assms by (simp add: fit_feature64_def Let_def)
qed



lemma fit_feature64_facts:
  assumes "fit_feature64 xs = Inr st"
  shows "xs \<noteq> []" and "0 \<le> scale64 st"
    and "offset64 st = float64 (0 - float64 (min64 st * scale64 st))"
    and "min64 st = Min (set (map to_float64 xs))"
    and "max64 st = Max (set (map to_float64 xs))"
proof -
  show ne: "xs \<noteq> []" using assms by (auto simp: fit_feature64_def)
  from fit_feature64_Inr [OF ne] obtain s where s: "0 \<le> s"
    "fit_feature64 xs =
    Inr \<lparr>min64 = Min (set (map to_float64 xs)), max64 = Max (set (map to_float64 xs)),
         scale64 = s,
         offset64 = float64 (0 - float64 (Min (set (map to_float64 xs)) * s))\<rparr>"
    by blast
  then have st: "st = \<lparr>min64 = Min (set (map to_float64 xs)), max64 = Max (set (map to_float64 xs)),
         scale64 = s,
         offset64 = float64 (0 - float64 (Min (set (map to_float64 xs)) * s))\<rparr>"
    using assms by simp
  show "0 \<le> scale64 st" using s(1) by (simp add: st)
  show "offset64 st = float64 (0 - float64 (min64 st * scale64 st))" by (simp add: st)
  show "min64 st = Min (set (map to_float64 xs))" by (simp add: st)
  show "max64 st = Max (set (map to_float64 xs))" by (simp add: st)
qed



lemma fit_feature64_min_le_max:
  assumes "fit_feature64 xs = Inr st"
  shows "min64 st \<le> max64 st"
proof -
  note f = fit_feature64_facts [OF assms(1)]
  show ?thesis unfolding f(4,5) using f(1) by simp
qed








subsection \<open>Donor roster\<close>

lemma columns_setitem: "set (columns (setitem df k c)) = insert k (set (columns df))"
  by (induction df k c rule: setitem.induct) (auto simp: columns_def)



lemma map_of_None_columns: "map_of df k = None \<longleftrightarrow> k \<notin> set (columns df)"
  by (simp add: columns_def map_of_eq_None_iff)

lemma read_csv_cases:
  "read_csv file [k] =
     (if file = [] then Inl EmptyDataError
      else if k \<in> set (columns file) then Inr file
      else Inl (ValueError (MissingParseDatesColumn k)))"
  by (simp add: read_csv_def)

lemma parse_donors_csv_missing:
  assumes "\<not> required \<subseteq> set (columns file)"
  shows "parse_donors_csv file =
     Inl (if file = [] then EmptyDataError
          else if ''last_donation_date'' \<notin> set (columns file)
            then ValueError (MissingParseDatesColumn ''last_donation_date'')
          else if is_datetime (the (map_of file ''last_donation_date''))
            then ValueError (MissingColumns (required - set (columns file)))
          else AttributeError)"
proof (cases "file = []")
  case True
  then show ?thesis by (simp add: parse_donors_csv_def read_csv_cases)
next
  case ne: False
  show ?thesis
  proof (cases "''last_donation_date'' \<in> set (columns file)")
    case False
    then show ?thesis using ne by (simp add: parse_donors_csv_def read_csv_cases)
  next
    case True
    then obtain col where col: "map_of file ''last_donation_date'' = Some col"
      using map_of_None_columns by fastforce
    have cs: "set (columns (setitem file ''last_donation_date'' c)) = set (columns file)" for c
      using True by (auto simp: columns_setitem)
    have miss: "required - set (columns file) \<noteq> {}" using assms by auto
    show ?thesis
    proof (cases col)
      case (Datetime64 xs)
      then show ?thesis using ne True col cs miss
        by (simp add: parse_donors_csv_def read_csv_cases Let_def)
    qed (use ne True col in \<open>simp_all add: parse_donors_csv_def read_csv_cases\<close>)
  qed
qed

lemma len_gen_sample_donors: "len_frame (gen_sample_donors np_random today n seed) = n"
  by (simp add: gen_sample_donors_def len_frame_def Let_def)

text \<open>
  Claim C5, as the code has it.  For every uploaded table that lacks a required
  column, \<open>parse_donors_csv\<close> raises an error, the sidebar shows that error after
  the text \<open>Error reading donor CSV:\<close>, and the roster becomes
  \<open>gen_sample_donors()\<close>, that is 200 rows drawn with seed 42.  Which error it is
  depends on the \<open>last_donation_date\<close> column: the missing-columns \<open>ValueError\<close>
  naming the absent columns when that column is there and was parsed as dates; the
  \<open>AttributeError\<close> of the \<open>.dt\<close> accessor when it is there but was not parsed as
  dates; \<open>read_csv\<close>'s own missing-column \<open>ValueError\<close> when it is the absent
  column; and \<open>EmptyDataError\<close> when the file has no columns at all.
\<close>

theorem roster_missing_column_falls_back:
  assumes "\<not> required \<subseteq> set (columns file)"
  shows "\<exists>e. parse_donors_csv file = Inl e \<and>
           load_donors np_random today (Some file) =
             (Some (Error ''Error reading donor CSV: '' e),
              gen_sample_donors np_random today 200 42) \<and>
           len_frame (gen_sample_donors np_random today 200 42) = 200 \<and>
           (\<forall>ds. map_of file ''last_donation_date'' = Some (Datetime64 ds) \<longrightarrow>
              e = ValueError (MissingColumns (required - set (columns file)))) \<and>
           (\<forall>col. map_of file ''last_donation_date'' = Some col \<and> \<not> is_datetime col \<longrightarrow>
              e = AttributeError) \<and>
           (file \<noteq> [] \<and> ''last_donation_date'' \<notin> set (columns file) \<longrightarrow>
              e = ValueError (MissingParseDatesColumn ''last_donation_date'')) \<and>
           (file = [] \<longrightarrow> e = EmptyDataError)"
proof -
  let ?e = "if file = [] then EmptyDataError
          else if ''last_donation_date'' \<notin> set (columns file)
            then ValueError (MissingParseDatesColumn ''last_donation_date'')
          else if is_datetime (the (map_of file ''last_donation_date''))
            then ValueError (MissingColumns (required - set (columns file)))
          else AttributeError"
  have p: "parse_donors_csv file = Inl ?e"
    using assms by (rule parse_donors_csv_missing)
  have l: "load_donors np_random today (Some file) =
             (Some (Error ''Error reading donor CSV: '' ?e),
              gen_sample_donors np_random today 200 42)"
    by (simp add: load_donors_def p)
  have present: "file \<noteq> [] \<and> ''last_donation_date'' \<in> set (columns file)"
    if "map_of file ''last_donation_date'' = Some col" for col
  proof -
    have "file \<noteq> []" using that by auto
    moreover have "''last_donation_date'' \<in> set (columns file)"
      using that by (metis map_of_None_columns option.distinct(1))
    ultimately show ?thesis by simp
  qed
  have d: "?e = ValueError (MissingColumns (required - set (columns file)))"
    if "map_of file ''last_donation_date'' = Some (Datetime64 ds)" for ds
    using present [OF that] that by simp
  have u: "?e = AttributeError"
    if "map_of file ''last_donation_date'' = Some col \<and> \<not> is_datetime col" for col
    using present [of col] that by simp
  have m: "file \<noteq> [] \<and> ''last_donation_date'' \<notin> set (columns file) \<longrightarrow>
      ?e = ValueError (MissingParseDatesColumn ''last_donation_date'')"
    by simp
  have n: "file = [] \<longrightarrow> ?e = EmptyDataError"
    by simp
  show ?thesis
    using p l d u m n len_gen_sample_donors by blast
qed

theorem roster_missing_column_falls_back_witness:
  "\<not> required \<subseteq> set (columns roster_without_blood_group) \<and>
   parse_donors_csv roster_without_blood_group =
     Inl (ValueError (MissingColumns {''blood_group''})) \<and>
   load_donors constant_draws 739925 (Some roster_without_blood_group) =
     (Some (Error ''Error reading donor CSV: '' (ValueError (MissingColumns {''blood_group''}))),
      gen_sample_donors constant_draws 739925 200 42) \<and>
   len_frame (gen_sample_donors constant_draws 739925 200 42) = 200 \<and>
   \<not> required \<subseteq> set (columns roster_with_unparsed_dates) \<and>
   load_donors constant_draws 739925 (Some roster_with_unparsed_dates) =
     (Some (Error ''Error reading donor CSV: '' AttributeError),
      gen_sample_donors constant_draws 739925 200 42) \<and>
   \<not> required \<subseteq> set (columns roster_without_dates) \<and>
   load_donors constant_draws 739925 (Some roster_without_dates) =
     (Some (Error ''Error reading donor CSV: ''
        (ValueError (MissingParseDatesColumn ''last_donation_date''))),
      gen_sample_donors constant_draws 739925 200 42) \<and>
   \<not> required \<subseteq> set (columns []) \<and>
   load_donors constant_draws 739925 (Some []) =
     (Some (Error ''Error reading donor CSV: '' EmptyDataError),
      gen_sample_donors constant_draws 739925 200 42)"
proof -
  have c: "set (columns roster_without_blood_group) =
      {''name'', ''gender'', ''last_donation_date'', ''total_donations''}"
    by (simp add: roster_without_blood_group_def columns_def)
  have h: "\<not> required \<subseteq> set (columns roster_without_blood_group)"
    unfolding c by (simp add: required_def)
  have r: "required - set (columns roster_without_blood_group) = {''blood_group''}"
    unfolding c by (auto simp: required_def)
  have m: "map_of roster_without_blood_group ''last_donation_date'' =
      Some (Datetime64 [Some 739800])"
    by (simp add: roster_without_blood_group_def)
  have h2: "\<not> required \<subseteq> set (columns roster_with_unparsed_dates)"
    by (simp add: roster_with_unparsed_dates_def columns_def required_def)
  have m2: "map_of roster_with_unparsed_dates ''last_donation_date'' =
      Some (Object [Some ''last spring'']) \<and> \<not> is_datetime (Object [Some ''last spring''])"
    by (simp add: roster_with_unparsed_dates_def)
  have h3: "\<not> required \<subseteq> set (columns roster_without_dates)"
    by (simp add: roster_without_dates_def columns_def required_def)
  have m3: "roster_without_dates \<noteq> [] \<and>
      ''last_donation_date'' \<notin> set (columns roster_without_dates)"
    by (simp add: roster_without_dates_def columns_def)
  have h4: "\<not> required \<subseteq> set (columns [])"
    by (simp add: columns_def required_def)
  have w1: "parse_donors_csv roster_without_blood_group =
       Inl (ValueError (MissingColumns {''blood_group''})) \<and>
     load_donors constant_draws 739925 (Some roster_without_blood_group) =
       (Some (Error ''Error reading donor CSV: ''
          (ValueError (MissingColumns {''blood_group''}))),
        gen_sample_donors constant_draws 739925 200 42) \<and>
     len_frame (gen_sample_donors constant_draws 739925 200 42) = 200"
    using roster_missing_column_falls_back [OF h, of constant_draws 739925] r m by auto
  have w2: "load_donors constant_draws 739925 (Some roster_with_unparsed_dates) =
     (Some (Error ''Error reading donor CSV: '' AttributeError),
      gen_sample_donors constant_draws 739925 200 42)"
    using roster_missing_column_falls_back [OF h2, of constant_draws 739925] m2 by auto
  have w3: "load_donors constant_draws 739925 (Some roster_without_dates) =
     (Some (Error ''Error reading donor CSV: ''
        (ValueError (MissingParseDatesColumn ''last_donation_date''))),
      gen_sample_donors constant_draws 739925 200 42)"
    using roster_missing_column_falls_back [OF h3, of constant_draws 739925] m3 by auto
  have w4: "load_donors constant_draws 739925 (Some []) =
     (Some (Error ''Error reading donor CSV: '' EmptyDataError),
      gen_sample_donors constant_draws 739925 200 42)"
    using roster_missing_column_falls_back [OF h4, of constant_draws 739925] by auto
  from h h2 h3 h4 w1 w2 w3 w4 show ?thesis by blast
qed

text \<open>
  Claim C5 as written promises the missing-column error for every table lacking a
  required column.  The date conversion comes before the column check, so a table
  without \<open>blood_group\<close> whose \<open>last_donation_date\<close> values pandas could not parse
  fails with the \<open>AttributeError\<close> of the \<open>.dt\<close> accessor instead.
\<close>

theorem roster_missing_column_counterexample:
  "\<not> required \<subseteq> set (columns roster_with_unparsed_dates) \<and>
   ''blood_group'' \<notin> set (columns roster_with_unparsed_dates) \<and>
   parse_donors_csv roster_with_unparsed_dates = Inl AttributeError"
  by (simp add: roster_with_unparsed_dates_def columns_def required_def
      parse_donors_csv_def read_csv_def)






subsection \<open>Training table\<close>

lemma astype_int_named_columns:
  "astype_int_named py_int name df = Inr res \<Longrightarrow> columns res = columns df"
  by (induction df arbitrary: res)
    (auto simp: columns_def split: if_splits sum.splits)

lemma astype_int_named_error:
  "astype_int_named py_int name df = Inl e \<Longrightarrow>
     \<exists>c. (name, c) \<in> set df \<and> astype_int py_int c = Inl e"
  by (induction df) (auto split: if_splits sum.splits)

lemma astype_int_named_success:
  "astype_int_named py_int name df = Inr res \<Longrightarrow> (name, c) \<in> set df \<Longrightarrow>
     \<exists>c'. astype_int py_int c = Inr c'"
  by (induction df arbitrary: res) (auto split: if_splits sum.splits)

lemma astype_int_named_total:
  "(\<forall>c. (name, c) \<in> set df \<longrightarrow> (\<exists>c'. astype_int py_int c = Inr c')) \<Longrightarrow>
     \<exists>res. astype_int_named py_int name df = Inr res"
proof (induction df)
  case Nil
  then show ?case by simp
next
  case (Cons a df)
  obtain n c where a: "a = (n, c)" by (cases a)
  from Cons obtain res where res: "astype_int_named py_int name df = Inr res" by auto
  show ?case
  proof (cases "n = name")
    case True
    then obtain c' where "astype_int py_int c = Inr c'" using Cons.prems a by auto
    then show ?thesis using a True res by simp
  next
    case False
    then show ?thesis using a res by simp
  qed
qed

lemma astype_int_named_nth:
  "astype_int_named py_int name df = Inr res \<Longrightarrow> i < length df \<Longrightarrow>
     (if fst (df ! i) = name
      then \<exists>c'. astype_int py_int (snd (df ! i)) = Inr c' \<and> res ! i = (name, c')
      else res ! i = df ! i)"
proof (induction df arbitrary: res i)
  case Nil
  then show ?case by simp
next
  case (Cons a df)
  obtain n c where a: "a = (n, c)" by (cases a)
  from Cons.prems(1) obtain res' where res': "astype_int_named py_int name df = Inr res'"
    by (auto simp: a split: if_splits sum.splits)
  show ?case
  proof (cases i)
    case 0
    then show ?thesis using Cons.prems(1) a res' by (auto split: if_splits sum.splits)
  next
    case (Suc j)
    have "\<exists>h. res = h # res'"
      using Cons.prems(1) a res' by (auto split: if_splits sum.splits)
    then have "res ! i = res' ! j" using Suc by auto
    moreover have "j < length df" using Cons.prems(2) Suc by simp
    ultimately show ?thesis using Cons.IH [OF res', of j] Suc by simp
  qed
qed

lemma astype_int_named_length:
  "astype_int_named py_int name df = Inr res \<Longrightarrow> length res = length df"
  using astype_int_named_columns [of py_int name df res] 
  by (metis columns_def length_map)

lemma columns_rename_column:
  "columns (rename_column df k v) = map (\<lambda>n. if n = k then v else n) (columns df)"
  by (simp add: rename_column_def columns_def case_prod_beta comp_def)

lemma rename_column_nth:
  "i < length df \<Longrightarrow> rename_column df k v ! i = (if fst (df ! i) = k then v else fst (df ! i), snd (df ! i))"
  by (simp add: rename_column_def case_prod_beta)

lemma rename_column_mem:
  assumes "v \<notin> set (columns df)"
  shows "(v, c) \<in> set (rename_column df k v) \<longleftrightarrow> (k, c) \<in> set df"
  using assms by (induction df) (auto simp: rename_column_def columns_def)

lemma last_rename_column:
  assumes "df \<noteq> []"
  shows "last (rename_column df (last (columns df)) v) = (v, snd (last df))"
proof -
  have "last (rename_column df (last (columns df)) v) =
      (\<lambda>(n, c). (if n = last (columns df) then v else n, c)) (last df)"
    using assms by (simp add: rename_column_def last_map)
  moreover have "fst (last df) = last (columns df)"
    using assms by (simp add: columns_def last_map)
  ultimately show ?thesis by (simp add: case_prod_beta)
qed

lemma case_list_nonempty:
  "xs \<noteq> [] \<Longrightarrow> (case xs of [] \<Rightarrow> a | _ # _ \<Rightarrow> b) = b"
  by (cases xs) simp_all

lemma load_transfusion_no_target:
  assumes "file \<noteq> []" and "''Target'' \<notin> set (columns (rename_aliases file))"
  shows "load_transfusion py_int file =
     astype_int_named py_int ''Target''
       (rename_column (rename_aliases file) (last (columns (rename_aliases file))) ''Target'')"
proof -
  let ?df = "rename_aliases file"
  have len: "length ?df = length file"
    by (simp add: rename_aliases_def col_map_def rename_column_def)
  then have ne: "?df \<noteq> []" using assms(1) by auto
  then have cne: "columns ?df \<noteq> []" by (simp add: columns_def)
  have rc: "read_csv file [] = Inr file"
    using assms(1) by (simp add: read_csv_def)
  have mid: "(if ''Target'' \<notin> set (columns ?df) then
                 (case columns ?df of
                    [] \<Rightarrow> Inl IndexError
                  | _ # _ \<Rightarrow> Inr (rename_column ?df (last (columns ?df)) ''Target''))
               else Inr ?df) = Inr (rename_column ?df (last (columns ?df)) ''Target'')"
    using assms(2) by (simp add: case_list_nonempty [OF cne])
  have "last (columns ?df) \<in> set (columns ?df)" using cne by simp
  then have has: "''Target'' \<in> set (columns (rename_column ?df (last (columns ?df)) ''Target''))"
    by (auto simp: columns_rename_column)
  show ?thesis
    unfolding load_transfusion_def rc Let_def sum.case mid
    using has by simp
qed



lemma rename_last_column:
  assumes "df \<noteq> []" and "distinct (columns df)"
  shows "rename_column df (last (columns df)) v = butlast df @ [(v, snd (last df))]"
proof -
  obtain ys n c where df: "df = ys @ [(n, c)]"
    using assms(1) by (metis rev_exhaust surj_pair)
  have "n \<notin> fst ` set ys" using assms(2) by (simp add: df columns_def)
  then have "map (\<lambda>(m, c). (if m = n then v else m, c)) ys = ys"
    by (intro map_idI) (auto simp: rev_image_eqI)
  then show ?thesis by (simp add: df rename_column_def columns_def)
qed

lemma astype_int_named_fresh:
  "name \<notin> fst ` set ys \<Longrightarrow> astype_int_named py_int name ys = Inr ys"
  by (induction ys) auto

lemma astype_int_named_append:
  "astype_int_named py_int name (ys @ zs) =
     (case astype_int_named py_int name ys of
        Inl e \<Rightarrow> Inl e
      | Inr ys' \<Rightarrow>
          (case astype_int_named py_int name zs of
             Inl e \<Rightarrow> Inl e
           | Inr zs' \<Rightarrow> Inr (ys' @ zs')))"
  by (induction ys) (auto split: sum.splits if_splits)

text \<open>
  Claim C9, as the code has it.  For every loaded table that, after the alias
  renaming, has no column named \<open>Target\<close>, the last column is renamed to
  \<open>Target\<close> (together with any other column that bears its name) and becomes the
  label: no error reports the missing label.  The load succeeds exactly when the
  values of the renamed columns convert to integers; it then returns the table with
  the last column converted and named \<open>Target\<close> and every column of another name
  unchanged.  The only error that can arise is the one \<open>astype(int)\<close> raises on
  such a column.  When the names are distinct, the result is the table with its
  last column replaced.
\<close>

theorem last_column_label_fallback:
  assumes "file \<noteq> []" and "''Target'' \<notin> set (columns (rename_aliases file))"
  shows
    "((\<exists>res. load_transfusion py_int file = Inr res) \<longleftrightarrow>
        (\<forall>c. (last (columns (rename_aliases file)), c) \<in> set (rename_aliases file) \<longrightarrow>
             (\<exists>c'. astype_int py_int c = Inr c'))) \<and>
     (\<forall>res. load_transfusion py_int file = Inr res \<longrightarrow>
        columns res =
          map (\<lambda>n. if n = last (columns (rename_aliases file)) then ''Target'' else n)
            (columns (rename_aliases file)) \<and>
        (\<exists>ints. astype_int py_int (snd (last (rename_aliases file))) = Inr ints \<and>
           last res = (''Target'', ints)) \<and>
        (\<forall>i < length (rename_aliases file).
           fst (rename_aliases file ! i) \<noteq> last (columns (rename_aliases file)) \<longrightarrow>
           res ! i = rename_aliases file ! i)) \<and>
     (\<forall>e. load_transfusion py_int file = Inl e \<longrightarrow>
        (\<exists>c. (last (columns (rename_aliases file)), c) \<in> set (rename_aliases file) \<and>
           astype_int py_int c = Inl e)) \<and>
     (distinct (columns (rename_aliases file)) \<longrightarrow>
        load_transfusion py_int file =
          (case astype_int py_int (snd (last (rename_aliases file))) of
             Inl e \<Rightarrow> Inl e
           | Inr ints \<Rightarrow> Inr (butlast (rename_aliases file) @ [(''Target'', ints)])))"
proof -
  let ?df = "rename_aliases file"
  let ?L = "last (columns ?df)"
  let ?R = "rename_column ?df ?L ''Target''"
  have load: "load_transfusion py_int file = astype_int_named py_int ''Target'' ?R"
    using assms by (rule load_transfusion_no_target)
  have len: "length ?df = length file"
    by (simp add: rename_aliases_def col_map_def rename_column_def)
  then have ne: "?df \<noteq> []" using assms(1) by auto
  have lenR: "length ?R = length ?df" by (simp add: rename_column_def)
  have mem: "(''Target'', c) \<in> set ?R \<longleftrightarrow> (?L, c) \<in> set ?df" for c
    using assms(2) by (rule rename_column_mem)
  have iff: "(\<exists>res. load_transfusion py_int file = Inr res) \<longleftrightarrow>
      (\<forall>c. (?L, c) \<in> set ?df \<longrightarrow> (\<exists>c'. astype_int py_int c = Inr c'))"
  proof
    assume "\<exists>res. load_transfusion py_int file = Inr res"
    then obtain res where "astype_int_named py_int ''Target'' ?R = Inr res"
      using load by auto
    then show "\<forall>c. (?L, c) \<in> set ?df \<longrightarrow> (\<exists>c'. astype_int py_int c = Inr c')"
      using astype_int_named_success mem by blast
  next
    assume "\<forall>c. (?L, c) \<in> set ?df \<longrightarrow> (\<exists>c'. astype_int py_int c = Inr c')"
    then have "\<forall>c. (''Target'', c) \<in> set ?R \<longrightarrow> (\<exists>c'. astype_int py_int c = Inr c')"
      using mem by blast
    then show "\<exists>res. load_transfusion py_int file = Inr res"
      unfolding load by (rule astype_int_named_total)
  qed
  have ok: "columns res = map (\<lambda>n. if n = ?L then ''Target'' else n) (columns ?df) \<and>
        (\<exists>ints. astype_int py_int (snd (last ?df)) = Inr ints \<and> last res = (''Target'', ints)) \<and>
        (\<forall>i < length ?df. fst (?df ! i) \<noteq> ?L \<longrightarrow> res ! i = ?df ! i)"
    if "load_transfusion py_int file = Inr res" for res
  proof -
    have r: "astype_int_named py_int ''Target'' ?R = Inr res" using that load by simp
    have c: "columns res = map (\<lambda>n. if n = ?L then ''Target'' else n) (columns ?df)"
      using astype_int_named_columns [OF r] by (simp add: columns_rename_column)
    have lres: "length res = length ?df"
      using astype_int_named_length [OF r] lenR by simp
    let ?k = "length ?df - 1"
    have k: "?k < length ?R" using ne lenR by simp
    have lastR: "?R ! ?k = (''Target'', snd (last ?df))"
      using last_rename_column [OF ne, of "''Target''"] ne lenR
      by (metis last_conv_nth length_0_conv)
    from astype_int_named_nth [OF r k] lastR
    obtain c' where c': "astype_int py_int (snd (last ?df)) = Inr c'" "res ! ?k = (''Target'', c')"
      by auto
    have "last res = res ! ?k"
      using lres ne by (metis last_conv_nth length_0_conv)
    then have l: "\<exists>ints. astype_int py_int (snd (last ?df)) = Inr ints \<and> last res = (''Target'', ints)"
      using c' by auto
    have u: "res ! i = ?df ! i" if i: "i < length ?df" and f: "fst (?df ! i) \<noteq> ?L" for i
    proof -
      have Ri: "?R ! i = ?df ! i" using i f by (simp add: rename_column_nth)
      have "fst (?df ! i) \<in> set (columns ?df)" using i by (simp add: columns_def)
      then have "fst (?R ! i) \<noteq> ''Target''" using assms(2) Ri by auto
      then show ?thesis
        using astype_int_named_nth [OF r, of i] i lenR Ri by simp
    qed
    from c l u show ?thesis by blast
  qed
  have err: "\<exists>c. (?L, c) \<in> set ?df \<and> astype_int py_int c = Inl e"
    if "load_transfusion py_int file = Inl e" for e
    using that load astype_int_named_error mem by metis
  have dis: "load_transfusion py_int file =
          (case astype_int py_int (snd (last ?df)) of
             Inl e \<Rightarrow> Inl e
           | Inr ints \<Rightarrow> Inr (butlast ?df @ [(''Target'', ints)]))"
    if d: "distinct (columns ?df)"
  proof -
    have R: "?R = butlast ?df @ [(''Target'', snd (last ?df))]"
      using ne d by (rule rename_last_column)
    have "set (butlast ?df) \<subseteq> set ?df" by (meson in_set_butlastD subsetI)
    then have fresh: "''Target'' \<notin> fst ` set (butlast ?df)"
      using assms(2) by (auto simp: columns_def)
    show ?thesis
      unfolding load R astype_int_named_append astype_int_named_fresh [OF fresh]
      by (simp split: sum.splits)
  qed
  show ?thesis
    using iff ok err dis by (intro conjI allI impI) blast+
qed

theorem last_column_label_fallback_witness:
  "table_without_label \<noteq> [] \<and>
   ''Target'' \<notin> set (columns (rename_aliases table_without_label)) \<and>
   distinct (columns (rename_aliases table_without_label)) \<and>
   load_transfusion (\<lambda>s. None) table_without_label =
     Inr [(''Recency'', Int64 [2, 0]), (''Frequency'', Int64 [50, 13]),
          (''Monetary'', Int64 [12500, 3250]), (''Time'', Int64 [98, 28]),
          (''Target'', Int64 [1, 0])] \<and>
   table_with_two_time_columns \<noteq> [] \<and>
   ''Target'' \<notin> set (columns (rename_aliases table_with_two_time_columns)) \<and>
   load_transfusion (\<lambda>s. None) table_with_two_time_columns =
     Inr [(''Recency'', Int64 [2, 0]), (''Frequency'', Int64 [50, 13]),
          (''Monetary'', Int64 [12500, 3250]), (''Target'', Int64 [98, 28]),
          (''Target'', Int64 [1, 0])] \<and>
   (\<exists>ints. astype_int (\<lambda>s. None) (snd (last (rename_aliases table_with_two_time_columns))) =
        Inr ints \<and>
      last [(''Recency'', Int64 [2, 0]), (''Frequency'', Int64 [50, 13]),
            (''Monetary'', Int64 [12500, 3250]), (''Target'', Int64 [98, 28]),
            (''Target'', Int64 [1, 0])] = (''Target'', ints))"
proof -
  have r: "rename_aliases table_without_label =
      [(''Recency'', Int64 [2, 0]), (''Frequency'', Int64 [50, 13]),
       (''Monetary'', Int64 [12500, 3250]), (''Time'', Int64 [98, 28]),
       (''donated'', Int64 [1, 0])]"
    by (simp add: rename_aliases_def col_map_def rename_column_def columns_def
        table_without_label_def)
  have n: "table_without_label \<noteq> []"
    by (simp add: table_without_label_def)
  have d: "distinct (columns (rename_aliases table_without_label))"
    unfolding r by (simp add: columns_def)
  have t: "''Target'' \<notin> set (columns (rename_aliases table_without_label))"
    unfolding r by (simp add: columns_def)
  have w1: "load_transfusion (\<lambda>s. None) table_without_label =
     Inr [(''Recency'', Int64 [2, 0]), (''Frequency'', Int64 [50, 13]),
          (''Monetary'', Int64 [12500, 3250]), (''Time'', Int64 [98, 28]),
          (''Target'', Int64 [1, 0])]"
    using last_column_label_fallback [OF n t, of "\<lambda>s. None"] d by (simp add: r)
  have r2: "rename_aliases table_with_two_time_columns =
      [(''Recency'', Int64 [2, 0]), (''Frequency'', Int64 [50, 13]),
       (''Monetary'', Int64 [12500, 3250]), (''Time'', Int64 [98, 28]),
       (''Time'', Boolean [True, False])]"
    by (simp add: rename_aliases_def col_map_def rename_column_def columns_def
        table_with_two_time_columns_def)
  have n2: "table_with_two_time_columns \<noteq> []"
    by (simp add: table_with_two_time_columns_def)
  have t2: "''Target'' \<notin> set (columns (rename_aliases table_with_two_time_columns))"
    unfolding r2 by (simp add: columns_def)
  have rc2: "read_csv table_with_two_time_columns [] = Inr table_with_two_time_columns"
    using n2 by (simp add: read_csv_def)
  have l2: "load_transfusion (\<lambda>s. None) table_with_two_time_columns =
     Inr [(''Recency'', Int64 [2, 0]), (''Frequency'', Int64 [50, 13]),
          (''Monetary'', Int64 [12500, 3250]), (''Target'', Int64 [98, 28]),
          (''Target'', Int64 [1, 0])]"
    by (simp add: load_transfusion_def rc2 r2 columns_def rename_column_def)
  have w2: "\<exists>ints. astype_int (\<lambda>s. None)
        (snd (last (rename_aliases table_with_two_time_columns))) = Inr ints \<and>
      last [(''Recency'', Int64 [2, 0]), (''Frequency'', Int64 [50, 13]),
            (''Monetary'', Int64 [12500, 3250]), (''Target'', Int64 [98, 28]),
            (''Target'', Int64 [1, 0])] = (''Target'', ints)"
    using last_column_label_fallback [OF n2 t2, of "\<lambda>s. None"] l2 by auto
  from n t d w1 n2 t2 l2 w2 show ?thesis by blast
qed

text \<open>
  Claim C9 as written says no error is raised.  When the last column has a
  missing value it is read as floats with a NaN, and converting it to integers
  raises a \<open>ValueError\<close>.
\<close>

theorem last_column_label_counterexample:
  "''Target'' \<notin> set (columns (rename_aliases table_with_gap_in_last_column)) \<and>
   load_transfusion (\<lambda>s. None) table_with_gap_in_last_column =
     Inl (ValueError CannotConvertNonFinite)"
proof -
  have r: "rename_aliases table_with_gap_in_last_column =
      [(''Recency'', Int64 [2, 0]), (''Frequency'', Int64 [50, 13]),
       (''Monetary'', Int64 [12500, 3250]), (''Time'', Int64 [98, 28]),
       (''remarks'', Float64 [Some 1, None])]"
    by (simp add: rename_aliases_def col_map_def rename_column_def columns_def
        table_with_gap_in_last_column_def)
  have n: "read_csv table_with_gap_in_last_column [] = Inr table_with_gap_in_last_column"
    by (simp add: read_csv_def table_with_gap_in_last_column_def)
  show ?thesis
    by (simp add: load_transfusion_def n r columns_def rename_column_def)
qed

subsection \<open>Leaderboard\<close>
















subsection \<open>Classifier, training and evaluation\<close>







lemma take_rows_subset: "take_rows xs idx = Inr ys \<Longrightarrow> set ys \<subseteq> set xs"
  by (auto simp: take_rows_def split: if_splits)

lemma one_class_length:
  assumes "set ys \<subseteq> {c}"
  shows "length (sort (remdups ys)) \<le> 1"
proof -
  have "card (set ys) \<le> card {c}" using assms by (intro card_mono) auto
  then show ?thesis by (simp add: length_remdups_card_conv)
qed

lemma train_model_one_class:
  assumes "set y \<subseteq> {c}"
  shows "\<exists>e. train_model split fit X y = Inl e"
proof -
  have "length (sort (remdups y_train)) \<le> 1" if "take_rows y train = Inr y_train" for train y_train
    using take_rows_subset [OF that] assms one_class_length by blast
  then show ?thesis
    by (auto simp: train_model_def Let_def split: sum.splits prod.splits)
qed

lemma roc_one_class:
  assumes "set y_test \<subseteq> {c}"
  shows "roc_auc_score y_test y_score = Inl (ValueError OnlyOneClassPresent)"
  using one_class_length [OF assms] by (simp add: roc_auc_score_def Let_def)




text \<open>
  The part of claim C8 that the code delivers: when \<open>train_model\<close> returns and the
  holdout labels are all the same, the ROC AUC is NaN and the page shows a dash for
  it next to the accuracy.
\<close>

lemma undefined_auc_reported_as_dash:
  assumes "train_model split fit X y = Inr (model, scaler, acc, auc)"
    and "split y = Inr (train, test)"
    and "take_rows y test = Inr y_test"
    and "set y_test \<subseteq> {c}"
  shows "auc = None \<and> top_kpis acc auc = (Percent (acc * 100), Dash)"
proof -
  have "auc = None"
    using assms(1) roc_one_class [OF assms(4)]
    by (auto simp: train_model_def Let_def assms(2,3) split: sum.splits if_splits)
  then show ?thesis by (simp add: top_kpis_def)
qed

text \<open>
  Claim C8 at a table whose labels are all 0.  The holdout partition then has one
  class, and so has the training partition: the fitted model has a single class,
  \<open>predict_proba(X_test)[:, 1]\<close> raises \<open>IndexError\<close> outside the \<open>try\<close>, and
  \<open>train_model\<close> returns neither an accuracy nor a NaN to be shown as a dash.
\<close>

theorem train_model_one_class_raises:
  "train_model split_last_row fit_single_leaf five_rows one_class_labels =
     Inl IndexError"
proof -
  have f: "\<exists>sc. MinMaxScaler_fit five_rows = Inr sc"
    by (simp add: MinMaxScaler_fit_def fit_feature_def checked_div_def
        handle_zeros_in_scale_def five_rows_def)
  show ?thesis
    using f
    by (auto simp: train_model_def Let_def split_last_row_def take_rows_def
        one_class_labels_def five_rows_def)
qed

end
